theory Spec2Isabelle
  imports Main "HOL-Library.Word"
begin

section \<open>The investigative agent of \<open>src/agent/investigator.py\<close>\<close>

text \<open>
  The file sequences calls to collaborators it does not implement: the process
  environment, an HTTP client, a PDF reader and four language-model endpoints (three
  chains and one conversational agent). The collaborators are a record of functions, the
  calls made to them are logged in a trace, and every \<open>raise\<close> and every exception that
  leaves a collaborator is a value.
\<close>

subsection \<open>Values, exceptions, events\<close>

type_synonym url = string
type_synonym bytes = "8 word list"

text \<open>A page object of the PDF reader, identified with its content stream.\<close>

type_synonym page = bytes

text \<open>
  An exception that leaves a library call: its class name and \<open>str(e)\<close>. The model
  covers exceptions of class \<open>Exception\<close>, the ones \<open>except Exception\<close> catches; signals
  that are not of that class (a keyboard interrupt, a cancelled task) are not raised by
  any collaborator here.
\<close>

datatype lib_error = LibError string string

text \<open>
  An exception inside this file: \<open>Raised c m\<close> is \<open>raise c(m)\<close> executed by a statement
  of the file, \<open>Lib e\<close> is an exception of a collaborator passing through.
\<close>

datatype exn = Raised string string | Lib lib_error

fun lib_str :: "lib_error \<Rightarrow> string" where
  "lib_str (LibError c m) = m"

fun exn_str :: "exn \<Rightarrow> string" where
  "exn_str (Raised c m) = m"
| "exn_str (Lib e) = lib_str e"

text \<open>
  The Python values that flow through the orchestrator: the texts the chains return, the
  list \<open>batch_results\<close> and the dictionaries appended to \<open>findings\<close> (insertion ordered).
\<close>

datatype pyval = PStr string | PList "pyval list" | PDict "(string \<times> pyval) list"

text \<open>
  The calls the file makes, in the order it makes them: the four kinds of remote call,
  the diagnostic written to standard output, and the entries into \<open>find_connections\<close> and
  \<open>generate_report\<close> with the list each receives.
\<close>

datatype event =
    HttpGet url
  | DocumentChain string
  | AnalysisChain pyval
  | FindConnections "pyval list"
  | AgentRun string
  | GenerateReport "pyval list"
  | ReportChain string
  | Print string

type_synonym trace = "event list"

text \<open>
  An HTTP response: its status, and what \<open>await response.read()\<close> gives.
\<close>

record response =
  status :: int
  read :: "lib_error + bytes"

text \<open>
  The collaborators. The remote ones may answer differently on each call (the agent keeps
  a transcript of the conversation, the network changes), so each answer may depend on the
  calls made so far. Whatever the agent does during a call, its choice among the three
  tools included, is part of \<open>agent_arun\<close>; the trace holds the calls that the statements
  of this file make. \<open>langchain_init\<close> stands for the constructors of the model client,
  the memory, the chains, the tools and the agent in \<open>__init__\<close>, which get the key.
  \<open>repr_str\<close> is Python's \<open>repr\<close> on a \<open>str\<close>.
\<close>

record env =
  getenv :: "string \<Rightarrow> string option"
  langchain_init :: "string \<Rightarrow> lib_error option"
  session_get :: "trace \<Rightarrow> url \<Rightarrow> lib_error + response"
  PdfReader :: "bytes \<Rightarrow> lib_error + page list"
  extract_text :: "page \<Rightarrow> lib_error + string"
  document_chain :: "trace \<Rightarrow> string \<Rightarrow> lib_error + pyval"
  analysis_chain :: "trace \<Rightarrow> pyval \<Rightarrow> lib_error + pyval"
  agent_arun :: "trace \<Rightarrow> string \<Rightarrow> lib_error + pyval"
  report_chain :: "trace \<Rightarrow> string \<Rightarrow> lib_error + pyval"
  repr_str :: "string \<Rightarrow> string"

subsection \<open>Strings\<close>

text \<open>\<open>sep.join(xs)\<close>.\<close>

fun str_join :: "string \<Rightarrow> string list \<Rightarrow> string" where
  "str_join sep [] = []"
| "str_join sep [x] = x"
| "str_join sep (x # y # ys) = x @ sep @ str_join sep (y # ys)"

text \<open>
  \<open>repr\<close> and \<open>str\<close> on the values above: \<open>str\<close> of a string is the string itself, a list
  and a dictionary print their members with \<open>repr\<close>.
\<close>

fun py_repr :: "(string \<Rightarrow> string) \<Rightarrow> pyval \<Rightarrow> string" where
  "py_repr q (PStr s) = q s"
| "py_repr q (PList xs) = ''['' @ str_join '', '' (map (py_repr q) xs) @ '']''"
| "py_repr q (PDict kvs) =
     ''{'' @ str_join '', '' (map (\<lambda>kv. q (fst kv) @ '': '' @ py_repr q (snd kv)) kvs) @ ''}''"

fun py_str :: "(string \<Rightarrow> string) \<Rightarrow> pyval \<Rightarrow> string" where
  "py_str q (PStr s) = s"
| "py_str q v = py_repr q v"

definition blank_line :: string where
  "blank_line = [CHR 0x0A, CHR 0x0A]"

subsection \<open>Construction\<close>

record agent =
  api_key :: string

definition InvestigativeAgent_init :: "env \<Rightarrow> exn + agent" where
  "InvestigativeAgent_init env =
     (case getenv env ''OPENROUTER_API_KEY'' of
        None \<Rightarrow> Inl (Raised ''ValueError'' ''OPENROUTER_API_KEY environment variable not set'')
      | Some k \<Rightarrow>
          if k = [] then
            Inl (Raised ''ValueError'' ''OPENROUTER_API_KEY environment variable not set'')
          else (case langchain_init env k of
                  Some e \<Rightarrow> Inl (Lib e)
                | None \<Rightarrow> Inr \<lparr>api_key = k\<rparr>))"

subsection \<open>Fetching a PDF and extracting its text\<close>

text \<open>The loop \<open>for page in pdf_reader.pages: text += page.extract_text()\<close>.\<close>

fun extract_pages :: "env \<Rightarrow> string \<Rightarrow> page list \<Rightarrow> lib_error + string" where
  "extract_pages env text [] = Inr text"
| "extract_pages env text (p # ps) =
     (case extract_text env p of
        Inl e \<Rightarrow> Inl e
      | Inr t \<Rightarrow> extract_pages env (text @ t) ps)"

text \<open>The body of the \<open>try\<close> in \<open>fetch_pdf\<close>.\<close>

definition read_pdf_text :: "env \<Rightarrow> bytes \<Rightarrow> lib_error + string" where
  "read_pdf_text env pdf_content =
     (case PdfReader env pdf_content of
        Inl e \<Rightarrow> Inl e
      | Inr pages \<Rightarrow> extract_pages env [] pages)"

definition fetch_pdf :: "env \<Rightarrow> url \<Rightarrow> trace \<Rightarrow> (exn + string) \<times> trace" where
  "fetch_pdf env url tr =
     (case session_get env tr url of
        Inl e \<Rightarrow> (Inl (Lib e), tr @ [HttpGet url])
      | Inr response \<Rightarrow>
          if status response \<noteq> 200 then
            (Inl (Raised ''Exception'' (''Failed to fetch PDF from '' @ url)), tr @ [HttpGet url])
          else
            (case read response of
               Inl e \<Rightarrow> (Inl (Lib e), tr @ [HttpGet url])
             | Inr pdf_content \<Rightarrow>
                 (case read_pdf_text env pdf_content of
                    Inl e \<Rightarrow>
                      (Inl (Raised ''Exception''
                              (''Failed to extract text from PDF: '' @ lib_str e)),
                       tr @ [HttpGet url])
                  | Inr text \<Rightarrow> (Inr text, tr @ [HttpGet url]))))"

subsection \<open>The chains\<close>

definition analyze_document :: "env \<Rightarrow> string \<Rightarrow> trace \<Rightarrow> (exn + pyval) \<times> trace" where
  "analyze_document env document_text tr =
     (case document_chain env tr document_text of
        Inl e \<Rightarrow> (Inl (Lib e), tr @ [DocumentChain document_text])
      | Inr analysis \<Rightarrow>
          (case analysis_chain env (tr @ [DocumentChain document_text]) analysis of
             Inl e \<Rightarrow>
               (Inl (Lib e), tr @ [DocumentChain document_text, AnalysisChain analysis])
           | Inr r \<Rightarrow>
               (Inr r, tr @ [DocumentChain document_text, AnalysisChain analysis])))"

definition connections_prompt :: "env \<Rightarrow> pyval list \<Rightarrow> string" where
  "connections_prompt env documents =
     ''Analyze these documents and identify connections, patterns, and relationships between them: ''
       @ str_join blank_line (map (py_str (repr_str env)) documents)"

definition find_connections :: "env \<Rightarrow> pyval list \<Rightarrow> trace \<Rightarrow> (exn + pyval) \<times> trace" where
  "find_connections env documents tr =
     (case agent_arun env (tr @ [FindConnections documents]) (connections_prompt env documents) of
        Inl e \<Rightarrow>
          (Inl (Lib e),
           tr @ [FindConnections documents, AgentRun (connections_prompt env documents)])
      | Inr r \<Rightarrow>
          (Inr r,
           tr @ [FindConnections documents, AgentRun (connections_prompt env documents)]))"

definition findings_str :: "env \<Rightarrow> pyval list \<Rightarrow> string" where
  "findings_str env findings = str_join blank_line (map (py_str (repr_str env)) findings)"

definition generate_report :: "env \<Rightarrow> pyval list \<Rightarrow> trace \<Rightarrow> (exn + pyval) \<times> trace" where
  "generate_report env findings tr =
     (case report_chain env (tr @ [GenerateReport findings]) (findings_str env findings) of
        Inl e \<Rightarrow>
          (Inl (Lib e), tr @ [GenerateReport findings, ReportChain (findings_str env findings)])
      | Inr r \<Rightarrow>
          (Inr r, tr @ [GenerateReport findings, ReportChain (findings_str env findings)]))"

subsection \<open>The batch orchestrator\<close>

text \<open>The body of the \<open>try\<close> in \<open>process_batch\<close>: fetch, then analyze.\<close>

definition fetch_and_analyze :: "env \<Rightarrow> url \<Rightarrow> trace \<Rightarrow> (exn + pyval) \<times> trace" where
  "fetch_and_analyze env url tr =
     (case fetch_pdf env url tr of
        (Inl e, tr1) \<Rightarrow> (Inl e, tr1)
      | (Inr document_text, tr1) \<Rightarrow> analyze_document env document_text tr1)"

definition diagnostic :: "url \<Rightarrow> exn \<Rightarrow> string" where
  "diagnostic url e = ''Error processing document '' @ url @ '': '' @ exn_str e"

text \<open>
  The inner loop \<open>for url in batch\<close>, with \<open>batch_results\<close> as accumulator. The handler
  catches every exception of the body, prints and goes on, so the loop itself never
  raises.
\<close>

fun process_urls :: "env \<Rightarrow> url list \<Rightarrow> pyval list \<Rightarrow> trace \<Rightarrow> pyval list \<times> trace" where
  "process_urls env [] batch_results tr = (batch_results, tr)"
| "process_urls env (url # urls) batch_results tr =
     (case fetch_and_analyze env url tr of
        (Inl e, tr1) \<Rightarrow> process_urls env urls batch_results (tr1 @ [Print (diagnostic url e)])
      | (Inr analysis, tr1) \<Rightarrow> process_urls env urls (batch_results @ [analysis]) tr1)"

text \<open>The slice \<open>xs[i:j]\<close> for indices that are not negative.\<close>

definition slice :: "'a list \<Rightarrow> nat \<Rightarrow> nat \<Rightarrow> 'a list" where
  "slice xs i j = take (j - i) (drop i xs)"

text \<open>
  One round of the outer loop on \<open>batch\<close>: the inner loop, then the connections when
  \<open>batch_results\<close> is not empty. An exception of \<open>find_connections\<close> is not caught.
\<close>

definition process_one_batch ::
  "env \<Rightarrow> url list \<Rightarrow> pyval list \<Rightarrow> trace \<Rightarrow> (exn + pyval list) \<times> trace" where
  "process_one_batch env batch findings tr =
     (case process_urls env batch [] tr of
        (batch_results, tr1) \<Rightarrow>
          if batch_results \<noteq> [] then
            (case find_connections env batch_results tr1 of
               (Inl e, tr2) \<Rightarrow> (Inl e, tr2)
             | (Inr connections, tr2) \<Rightarrow>
                 (Inr (findings @
                    [PDict [(''batch_results'', PList batch_results),
                            (''connections'', connections)]]),
                  tr2))
          else (Inr findings, tr1))"

text \<open>The outer loop \<open>for i in range(0, len(pdf_urls), 3)\<close>, from index \<open>i\<close> on.\<close>

function batch_loop ::
  "env \<Rightarrow> url list \<Rightarrow> nat \<Rightarrow> pyval list \<Rightarrow> trace \<Rightarrow> (exn + pyval list) \<times> trace" where
  "batch_loop env pdf_urls i findings tr =
     (if i < length pdf_urls then
        (case process_one_batch env (slice pdf_urls i (i + 3)) findings tr of
           (Inl e, tr1) \<Rightarrow> (Inl e, tr1)
         | (Inr findings1, tr1) \<Rightarrow> batch_loop env pdf_urls (i + 3) findings1 tr1)
      else (Inr findings, tr))"
  by pat_completeness auto
termination
  by (relation "measure (\<lambda>(env, pdf_urls, i, findings, tr). length pdf_urls - i)") auto

declare batch_loop.simps [simp del]

text \<open>The batches the outer loop forms, from index \<open>i\<close> on.\<close>

function batches :: "'a list \<Rightarrow> nat \<Rightarrow> 'a list list" where
  "batches pdf_urls i =
     (if i < length pdf_urls then slice pdf_urls i (i + 3) # batches pdf_urls (i + 3)
      else [])"
  by pat_completeness auto
termination
  by (relation "measure (\<lambda>(pdf_urls, i). length pdf_urls - i)") auto

declare batches.simps [simp del]

definition error_marker :: pyval where
  "error_marker = PDict [(''error'', PStr ''No documents were successfully processed'')]"

definition process_batch :: "env \<Rightarrow> url list \<Rightarrow> trace \<Rightarrow> (exn + pyval) \<times> trace" where
  "process_batch env pdf_urls tr =
     (case batch_loop env pdf_urls 0 [] tr of
        (Inl e, tr1) \<Rightarrow> (Inl e, tr1)
      | (Inr findings, tr1) \<Rightarrow>
          if findings \<noteq> [] then generate_report env findings tr1
          else (Inr error_marker, tr1))"

subsection \<open>Auxiliary notions for the statements\<close>

text \<open>
  The outer loop as a recursion over the list of its batches; \<open>batch_loop_run_batches\<close>
  shows it is the loop.
\<close>

fun run_batches ::
  "env \<Rightarrow> url list list \<Rightarrow> pyval list \<Rightarrow> trace \<Rightarrow> (exn + pyval list) \<times> trace" where
  "run_batches env [] findings tr = (Inr findings, tr)"
| "run_batches env (batch # bs) findings tr =
     (case process_one_batch env batch findings tr of
        (Inl e, tr1) \<Rightarrow> (Inl e, tr1)
      | (Inr findings1, tr1) \<Rightarrow> run_batches env bs findings1 tr1)"

text \<open>Counting the calls of one kind in a trace.\<close>

definition calls :: "(event \<Rightarrow> bool) \<Rightarrow> trace \<Rightarrow> nat" where
  "calls P tr = length (filter P tr)"

fun is_find_connections :: "event \<Rightarrow> bool" where
  "is_find_connections (FindConnections documents) = True"
| "is_find_connections e = False"

fun is_agent_run :: "event \<Rightarrow> bool" where
  "is_agent_run (AgentRun prompt) = True"
| "is_agent_run e = False"

fun is_generate_report :: "event \<Rightarrow> bool" where
  "is_generate_report (GenerateReport findings) = True"
| "is_generate_report e = False"

fun is_report_chain :: "event \<Rightarrow> bool" where
  "is_report_chain (ReportChain s) = True"
| "is_report_chain e = False"

text \<open>The calls that come after the documents: connections and report.\<close>

fun synthesis :: "event \<Rightarrow> bool" where
  "synthesis (FindConnections documents) = True"
| "synthesis (AgentRun prompt) = True"
| "synthesis (GenerateReport findings) = True"
| "synthesis (ReportChain s) = True"
| "synthesis e = False"

text \<open>The calls of the report alone.\<close>

fun reporting :: "event \<Rightarrow> bool" where
  "reporting (GenerateReport findings) = True"
| "reporting (ReportChain s) = True"
| "reporting e = False"

text \<open>The results among a list of outcomes, in order.\<close>

fun successes :: "('e + 'a) list \<Rightarrow> 'a list" where
  "successes [] = []"
| "successes (Inl e # rs) = successes rs"
| "successes (Inr a # rs) = a # successes rs"

subsection \<open>A concrete environment\<close>

text \<open>
  A small world to run the definitions in. The key is set. The URLs \<open>missing\<close> and
  \<open>nocontent\<close> answer 404 and 204, \<open>down\<close> cannot be reached, every other URL answers 200.
  The body of \<open>corrupt\<close> is no PDF; in any other body each byte that is not 0 is one page.
\<close>

definition demo_body :: "url \<Rightarrow> bytes" where
  "demo_body u =
     (if u = ''a'' then [1] else if u = ''b'' then [2] else if u = ''ab'' then [1, 2]
      else if u = ''corrupt'' then [] else [0])"

definition demo_get :: "url \<Rightarrow> lib_error + response" where
  "demo_get u =
     (if u = ''down'' then Inl (LibError ''ClientConnectorError'' ''Cannot connect to host'')
      else Inr \<lparr>status = (if u = ''missing'' then 404 else if u = ''nocontent'' then 204 else 200),
                read = Inr (demo_body u)\<rparr>)"

definition demo_env :: env where
  "demo_env =
     \<lparr>getenv = (\<lambda>k. if k = ''OPENROUTER_API_KEY'' then Some ''sk-1'' else None),
      langchain_init = (\<lambda>k. None),
      session_get = (\<lambda>h u. demo_get u),
      PdfReader = (\<lambda>b. if b = [] then Inl (LibError ''PdfReadError'' ''EOF marker not found'')
                        else Inr (map (\<lambda>x. [x]) (filter (\<lambda>x. x \<noteq> 0) b))),
      extract_text = (\<lambda>p. Inr (if p = [1] then ''alpha'' else ''beta'')),
      document_chain = (\<lambda>h t. Inr (PStr (''notes on '' @ t))),
      analysis_chain =
        (\<lambda>h a. case a of PStr s \<Rightarrow> Inr (PStr (''findings from '' @ s))
                | _ \<Rightarrow> Inl (LibError ''TypeError'' ''expected text'')),
      agent_arun = (\<lambda>h p. Inr (PStr ''links'')),
      report_chain = (\<lambda>h s. Inr (PStr ''report'')),
      repr_str = (\<lambda>s. [CHR 0x27] @ s @ [CHR 0x27])\<rparr>"


definition no_key_env :: env where
  "no_key_env = demo_env\<lparr>getenv := (\<lambda>k. None)\<rparr>"

definition empty_key_env :: env where
  "empty_key_env = demo_env\<lparr>getenv := (\<lambda>k. Some [])\<rparr>"

text \<open>The same world with a PDF reader whose second kind of page cannot be extracted.\<close>

definition bad_page_env :: env where
  "bad_page_env =
     demo_env\<lparr>extract_text :=
       (\<lambda>p. if p = [2] then Inl (LibError ''PdfReadError'' ''Unexpected end of stream'')
            else Inr ''alpha'')\<rparr>"

section \<open>Properties\<close>

subsection \<open>The batches of the outer loop\<close>

lemma batch_loop_run_batches:
  "batch_loop env pdf_urls i findings tr = run_batches env (batches pdf_urls i) findings tr"
proof (induction env pdf_urls i findings tr rule: batch_loop.induct)
  case (1 env pdf_urls i findings tr)
  show ?case
  proof (cases "i < length pdf_urls")
    case True
    then show ?thesis
      using "1.IH" 
      by (subst batch_loop.simps, subst batches.simps)
         (auto split: prod.splits sum.splits)
  next
    case False
    then show ?thesis
      by (subst batch_loop.simps, subst batches.simps) simp
  qed
qed

lemma concat_batches: "concat (batches xs i) = drop i xs"
proof (induction xs i rule: batches.induct)
  case (1 xs i)
  show ?case
  proof (cases "i < length xs")
    case True
    have "take 3 (drop i xs) @ drop (i + 3) xs = drop i xs"
      by (metis add.commute append_take_drop_id drop_drop)
    with True "1.IH" show ?thesis
      by (subst batches.simps) (simp add: slice_def)
  next
    case False
    then show ?thesis
      by (subst batches.simps) simp
  qed
qed

lemma length_batches: "length (batches xs i) = (length xs - i + 2) div 3"
proof (induction xs i rule: batches.induct)
  case (1 xs i)
  show ?case
  proof (cases "i < length xs")
    case True
    with "1.IH" show ?thesis
      by (subst batches.simps) (simp, arith)
  next
    case False
    then show ?thesis
      by (subst batches.simps) simp
  qed
qed

lemma batch_sizes:
  "b \<in> set (batches xs i) \<Longrightarrow> 0 < length b \<and> length b \<le> 3"
proof (induction xs i rule: batches.induct)
  case (1 xs i)
  show ?case
  proof (cases "i < length xs")
    case True
    with "1.prems" have "b = slice xs i (i + 3) \<or> b \<in> set (batches xs (i + 3))"
      by (subst (asm) batches.simps) simp
    with True "1.IH" show ?thesis
      by (auto simp: slice_def)
  next
    case False
    with "1.prems" show ?thesis
      by (subst (asm) batches.simps) simp
  qed
qed

lemma full_batches:
  "b \<in> set (butlast (batches xs i)) \<Longrightarrow> length b = 3"
proof (induction xs i rule: batches.induct)
  case (1 xs i)
  show ?case
  proof (cases "i < length xs")
    case True
    note lt = this
    show ?thesis
    proof (cases "i + 3 < length xs")
      case True
      then have ne: "batches xs (i + 3) \<noteq> []"
        by (subst batches.simps) simp
      from lt "1.prems" ne have "b = slice xs i (i + 3) \<or> b \<in> set (butlast (batches xs (i + 3)))"
        by (subst (asm) batches.simps) auto
      with True lt "1.IH" show ?thesis
        by (auto simp: slice_def)
    next
      case False
      then have "batches xs (i + 3) = []"
        by (subst batches.simps) simp
      with lt "1.prems" show ?thesis
        by (subst (asm) batches.simps) simp
    qed
  next
    case False
    with "1.prems" show ?thesis
      by (subst (asm) batches.simps) simp
  qed
qed


subsection \<open>What the loops add to the trace, and what they collect\<close>

lemma filter_filter_sub:
  "(\<And>e. P e \<Longrightarrow> Q e) \<Longrightarrow> filter P (filter Q xs) = filter P xs"
  by (induction xs) auto

lemma calls_via:
  assumes "\<And>e. P e \<Longrightarrow> Q e" and "filter Q xs = filter Q ys"
  shows "calls P xs = calls P ys"
proof -
  have "filter P xs = filter P (filter Q xs)"
    by (rule filter_filter_sub [symmetric]) (rule assms(1))
  also have "\<dots> = filter P (filter Q ys)"
    by (simp only: assms(2))
  also have "\<dots> = filter P ys"
    by (rule filter_filter_sub) (rule assms(1))
  finally show ?thesis
    by (simp only: calls_def)
qed

lemma synthesis_cases:
  "is_find_connections e \<Longrightarrow> synthesis e"
  "is_agent_run e \<Longrightarrow> synthesis e"
  "is_generate_report e \<Longrightarrow> synthesis e"
  "is_report_chain e \<Longrightarrow> synthesis e"
  "reporting e \<Longrightarrow> synthesis e"
  by (cases e; simp)+


lemma snd_fetch_pdf: "snd (fetch_pdf env url tr) = tr @ [HttpGet url]"
  by (simp add: fetch_pdf_def split: sum.splits)

lemma synthesis_analyze_document:
  "filter synthesis (snd (analyze_document env t tr)) = filter synthesis tr"
  by (simp add: analyze_document_def split: sum.splits)

lemma synthesis_fetch_and_analyze:
  "filter synthesis (snd (fetch_and_analyze env url tr)) = filter synthesis tr"
proof (cases "fetch_pdf env url tr")
  case (Pair r tr1)
  then have "tr1 = tr @ [HttpGet url]"
    using snd_fetch_pdf [of env url tr] by simp
  with Pair show ?thesis
    by (cases r) (simp_all add: fetch_and_analyze_def synthesis_analyze_document)
qed

lemma process_urls_step:
  "process_urls env (url # urls) acc tr =
     (case fst (fetch_and_analyze env url tr) of
        Inl e \<Rightarrow>
          process_urls env urls acc
            (snd (fetch_and_analyze env url tr) @ [Print (diagnostic url e)])
      | Inr analysis \<Rightarrow>
          process_urls env urls (acc @ [analysis]) (snd (fetch_and_analyze env url tr)))"
  by (cases "fetch_and_analyze env url tr") (simp split: sum.splits)

lemma process_urls_append:
  "process_urls env (xs @ ys) acc tr =
     (case process_urls env xs acc tr of (acc1, tr1) \<Rightarrow> process_urls env ys acc1 tr1)"
proof (induction xs arbitrary: acc tr)
  case Nil
  show ?case by simp
next
  case (Cons x xs)
  show ?case
    by (cases "fst (fetch_and_analyze env x tr)")
       (simp_all add: process_urls_step Cons.IH del: process_urls.simps)
qed

lemma synthesis_process_urls:
  "filter synthesis (snd (process_urls env urls acc tr)) = filter synthesis tr"
proof (induction urls arbitrary: acc tr)
  case Nil
  show ?case by simp
next
  case (Cons url urls)
  show ?case
    by (cases "fst (fetch_and_analyze env url tr)")
       (simp_all only: process_urls_step sum.case Cons.IH filter_append
          synthesis_fetch_and_analyze, simp_all)
qed

lemma process_urls_results:
  assumes "\<forall>url\<in>set urls. \<forall>h. fst (fetch_and_analyze env url h) = doc url"
  shows "fst (process_urls env urls acc tr) = acc @ successes (map doc urls)"
  using assms
proof (induction urls arbitrary: acc tr)
  case Nil
  show ?case by simp
next
  case (Cons url urls)
  have here: "fst (fetch_and_analyze env url tr) = doc url"
    using Cons.prems by simp
  have rest: "\<forall>u\<in>set urls. \<forall>h. fst (fetch_and_analyze env u h) = doc u"
    using Cons.prems by simp
  show ?case
    by (cases "doc url")
       (simp_all add: process_urls_step here Cons.IH [OF rest] del: process_urls.simps)
qed

lemma process_urls_count:
  assumes "\<forall>url\<in>set urls. \<forall>h. isl (fst (fetch_and_analyze env url h)) = (\<not> ok url)"
  shows "length (fst (process_urls env urls acc tr)) = length acc + length (filter ok urls)"
  using assms
proof (induction urls arbitrary: acc tr)
  case Nil
  show ?case by simp
next
  case (Cons url urls)
  have here: "isl (fst (fetch_and_analyze env url tr)) = (\<not> ok url)"
    using Cons.prems by simp
  have rest: "\<forall>u\<in>set urls. \<forall>h. isl (fst (fetch_and_analyze env u h)) = (\<not> ok u)"
    using Cons.prems by simp
  show ?case
    using here
    by (cases "fst (fetch_and_analyze env url tr)")
       (simp_all add: process_urls_step Cons.IH [OF rest] del: process_urls.simps)
qed

lemma process_urls_nonempty:
  assumes "\<forall>url\<in>set urls. \<forall>h. isl (fst (fetch_and_analyze env url h)) = (\<not> ok url)"
  shows "(fst (process_urls env urls [] tr) \<noteq> []) = (\<exists>u\<in>set urls. ok u)"
proof -
  have "length (fst (process_urls env urls [] tr)) = length (filter ok urls)"
    using process_urls_count [OF assms, of "[]" tr] by simp
  then have "(fst (process_urls env urls [] tr) = []) = (filter ok urls = [])"
    by (metis length_0_conv)
  then show ?thesis
    by (auto simp: filter_empty_conv)
qed

lemma process_one_batch_empty:
  "fst (process_urls env batch [] tr) = [] \<Longrightarrow>
   process_one_batch env batch findings tr = (Inr findings, snd (process_urls env batch [] tr))"
  by (cases "process_urls env batch [] tr") (simp add: process_one_batch_def)

lemma process_one_batch_nonempty:
  assumes "fst (process_urls env batch [] tr) = rs" and "rs \<noteq> []"
  shows "process_one_batch env batch findings tr =
     (case agent_arun env (snd (process_urls env batch [] tr) @ [FindConnections rs])
             (connections_prompt env rs) of
        Inl e \<Rightarrow> Inl (Lib e)
      | Inr c \<Rightarrow> Inr (findings @ [PDict [(''batch_results'', PList rs), (''connections'', c)]]),
      snd (process_urls env batch [] tr) @ [FindConnections rs, AgentRun (connections_prompt env rs)])"
  using assms
  by (cases "process_urls env batch [] tr")
     (auto simp: process_one_batch_def find_connections_def split: sum.splits)




lemma run_batches_all_fail:
  assumes "\<forall>b\<in>set bs. \<forall>url\<in>set b. \<forall>h. isl (fst (fetch_and_analyze env url h))"
  shows "fst (run_batches env bs findings tr) = Inr findings \<and>
         filter synthesis (snd (run_batches env bs findings tr)) = filter synthesis tr"
  using assms
proof (induction bs arbitrary: tr)
  case Nil
  show ?case by simp
next
  case (Cons b bs)
  have here: "\<forall>url\<in>set b. \<forall>h. isl (fst (fetch_and_analyze env url h)) = (\<not> False)"
    using Cons.prems by simp
  have rest: "\<forall>b\<in>set bs. \<forall>url\<in>set b. \<forall>h. isl (fst (fetch_and_analyze env url h))"
    using Cons.prems by simp
  have rs: "fst (process_urls env b [] tr) = []"
    using process_urls_nonempty [OF here, of tr] by simp
  show ?case
    using Cons.IH [OF rest, of "snd (process_urls env b [] tr)"]
    by (simp add: process_one_batch_empty [OF rs] synthesis_process_urls)
qed

lemma calls_append: "calls P (xs @ ys) = calls P xs + calls P ys"
  by (simp add: calls_def)


subsection \<open>Page texts\<close>

lemma extract_pages_texts:
  "map (extract_text env) pages = map Inr texts \<Longrightarrow>
   extract_pages env acc pages = Inr (acc @ concat texts)"
proof (induction pages arbitrary: acc texts)
  case Nil
  then show ?case by simp
next
  case (Cons p ps)
  then obtain t ts where "texts = t # ts"
    by (cases texts) auto
  with Cons show ?case by simp
qed

lemma extract_pages_raises:
  assumes "map (extract_text env) before = map Inr texts"
    and "extract_text env page = Inl e"
  shows "extract_pages env acc (before @ page # after) = Inl e"
  using assms(1)
proof (induction before arbitrary: acc texts)
  case Nil
  show ?case by (simp add: assms(2))
next
  case (Cons p ps)
  then obtain t ts where "texts = t # ts"
    by (cases texts) auto
  with Cons show ?case by simp
qed

section \<open>The claims\<close>

text \<open>
  Claim C1. The outer loop of \<open>process_batch\<close> runs over the batches \<open>batches pdf_urls 0\<close>,
  one round each and in this order. For a list of \<open>n\<close> URLs there are \<open>k = (n + 2) div 3\<close>
  of them, the ceiling of \<open>n / 3\<close>: the one \<open>k\<close> with \<open>n \<le> 3 * k < n + 3\<close>. Each batch
  holds at least one and at most three URLs, each but the last holds exactly three, and
  their concatenation is the input list.
\<close>

theorem process_batch_partition:
  "batch_loop env pdf_urls 0 findings tr = run_batches env (batches pdf_urls 0) findings tr \<and>
   length (batches pdf_urls 0) = (length pdf_urls + 2) div 3 \<and>
   length pdf_urls \<le> 3 * length (batches pdf_urls 0) \<and>
   3 * length (batches pdf_urls 0) < length pdf_urls + 3 \<and>
   (\<forall>batch\<in>set (batches pdf_urls 0). 0 < length batch \<and> length batch \<le> 3) \<and>
   (\<forall>batch\<in>set (butlast (batches pdf_urls 0)). length batch = 3) \<and>
   concat (batches pdf_urls 0) = pdf_urls"
proof -
  have len: "length (batches pdf_urls 0) = (length pdf_urls + 2) div 3"
    by (simp add: length_batches)
  have "length pdf_urls \<le> 3 * ((length pdf_urls + 2) div 3)"
    and "3 * ((length pdf_urls + 2) div 3) < length pdf_urls + 3"
    by arith+
  moreover have "concat (batches pdf_urls 0) = pdf_urls"
    by (simp add: concat_batches)
  ultimately show ?thesis
    using batch_sizes [of _ pdf_urls 0] full_batches [of _ pdf_urls 0]
    by (simp add: batch_loop_run_batches len)
qed

theorem process_batch_partition_witness:
  "batches [''u1'', ''u2'', ''u3'', ''u4'', ''u5'', ''u6'', ''u7''] 0 =
     [[''u1'', ''u2'', ''u3''], [''u4'', ''u5'', ''u6''], [''u7'']] \<and>
   length (batches [''u1'', ''u2'', ''u3'', ''u4'', ''u5'', ''u6'', ''u7''] 0) = (7 + 2) div 3 \<and>
   concat (batches [''u1'', ''u2'', ''u3'', ''u4'', ''u5'', ''u6'', ''u7''] 0) =
     [''u1'', ''u2'', ''u3'', ''u4'', ''u5'', ''u6'', ''u7''] \<and>
   batch_loop demo_env [''u1'', ''u2'', ''u3'', ''u4'', ''u5'', ''u6'', ''u7''] 0 [] [] =
     run_batches demo_env [[''u1'', ''u2'', ''u3''], [''u4'', ''u5'', ''u6''], [''u7'']] [] []"
proof -
  have "batches [''u1'', ''u2'', ''u3'', ''u4'', ''u5'', ''u6'', ''u7''] 0 =
     [[''u1'', ''u2'', ''u3''], [''u4'', ''u5'', ''u6''], [''u7'']]"
    by code_simp
  then show ?thesis
    using process_batch_partition
      [of demo_env "[''u1'', ''u2'', ''u3'', ''u4'', ''u5'', ''u6'', ''u7'']" "[]" "[]"]
    by (simp del: run_batches.simps)
qed

text \<open>
  Claim C2. When every URL of the input fails, whenever it is tried (its fetch, its
  extraction or its analysis raises), \<open>process_batch\<close> returns the error marker as a value,
  and its trace gains no call of \<open>find_connections\<close>, of the agent, of \<open>generate_report\<close>
  or of the report chain.
\<close>

theorem all_fail_error_marker:
  assumes "\<forall>url\<in>set pdf_urls. \<forall>h. isl (fst (fetch_and_analyze env url h))"
  shows "fst (process_batch env pdf_urls tr) = Inr error_marker \<and>
         calls is_find_connections (snd (process_batch env pdf_urls tr)) =
           calls is_find_connections tr \<and>
         calls is_agent_run (snd (process_batch env pdf_urls tr)) = calls is_agent_run tr \<and>
         calls is_generate_report (snd (process_batch env pdf_urls tr)) =
           calls is_generate_report tr \<and>
         calls is_report_chain (snd (process_batch env pdf_urls tr)) = calls is_report_chain tr"
proof -
  have "set (concat (batches pdf_urls 0)) = set pdf_urls"
    by (simp add: concat_batches)
  then have fail: "\<forall>b\<in>set (batches pdf_urls 0). \<forall>url\<in>set b.
      \<forall>h. isl (fst (fetch_and_analyze env url h))"
    using assms by auto
  note run = run_batches_all_fail [OF fail, of "[]" tr]
  obtain r t where loop: "batch_loop env pdf_urls 0 [] tr = (r, t)"
    by (cases "batch_loop env pdf_urls 0 [] tr")
  with run have r: "r = Inr []" and t: "filter synthesis t = filter synthesis tr"
    by (simp_all add: batch_loop_run_batches)
  from loop r have pb: "process_batch env pdf_urls tr = (Inr error_marker, t)"
    by (simp add: process_batch_def)
  show ?thesis
    using calls_via [OF synthesis_cases(1) t] calls_via [OF synthesis_cases(2) t]
      calls_via [OF synthesis_cases(3) t] calls_via [OF synthesis_cases(4) t]
    by (simp add: pb)
qed

theorem all_fail_error_marker_witness:
  "isl (fst (fetch_and_analyze demo_env ''missing'' [])) \<and>
   isl (fst (fetch_and_analyze demo_env ''corrupt'' [])) \<and>
   isl (fst (fetch_and_analyze demo_env ''down'' [])) \<and>
   fst (process_batch demo_env [''missing'', ''corrupt'', ''down'', ''missing''] []) =
     Inr (PDict [(''error'', PStr ''No documents were successfully processed'')]) \<and>
   calls is_find_connections
     (snd (process_batch demo_env [''missing'', ''corrupt'', ''down'', ''missing''] [])) = 0 \<and>
   calls is_generate_report
     (snd (process_batch demo_env [''missing'', ''corrupt'', ''down'', ''missing''] [])) = 0"
proof -
  have fails: "\<forall>url\<in>set [''missing'', ''corrupt'', ''down'', ''missing''].
      \<forall>h. isl (fst (fetch_and_analyze demo_env url h))"
    by (simp add: fetch_and_analyze_def fetch_pdf_def read_pdf_text_def demo_env_def
        demo_get_def demo_body_def)
  show ?thesis
    using fails all_fail_error_marker [OF fails, of "[]"]
    by (simp add: error_marker_def calls_def)
qed






text \<open>
  Claim C4. When the fetch of a URL raises (the request, a status other than 200, the
  read or the extraction), or its analysis raises, the inner loop goes on with the
  remaining URLs of the batch: \<open>batch_results\<close> is what it was, the trace gains the
  diagnostic, and the result of the loop is the result on the remaining URLs. The loop
  returns a list and a trace; it has no exception to return. A batch of that URL alone
  leaves \<open>batch_results\<close> unchanged. The URL stands for any URL of a batch: by
  \<open>process_urls_append\<close> the loop reaches it with the results and the trace of the URLs
  before it.
\<close>

theorem failed_url_is_skipped:
  assumes "fst (fetch_pdf env url tr) = Inl e \<or>
           (\<exists>document_text. fst (fetch_pdf env url tr) = Inr document_text \<and>
              fst (analyze_document env document_text (snd (fetch_pdf env url tr))) = Inl e)"
  shows "process_urls env (url # urls) batch_results tr =
           process_urls env urls batch_results
             (snd (fetch_and_analyze env url tr) @ [Print (diagnostic url e)]) \<and>
         process_urls env [url] batch_results tr =
           (batch_results, snd (fetch_and_analyze env url tr) @ [Print (diagnostic url e)])"
proof -
  have "fst (fetch_and_analyze env url tr) = Inl e"
    using assms
    by (cases "fetch_pdf env url tr") (auto simp: fetch_and_analyze_def split: prod.splits)
  then show ?thesis
    by (simp add: process_urls_step del: process_urls.simps(2))
qed

theorem failed_url_is_skipped_witness:
  "fst (fetch_pdf demo_env ''corrupt'' []) =
     Inl (Raised ''Exception'' ''Failed to extract text from PDF: EOF marker not found'') \<and>
   process_urls demo_env [''corrupt'', ''a''] [] [] =
     ([PStr ''findings from notes on alpha''],
      [HttpGet ''corrupt'',
       Print ''Error processing document corrupt: Failed to extract text from PDF: EOF marker not found'',
       HttpGet ''a'', DocumentChain ''alpha'', AnalysisChain (PStr ''notes on alpha'')])"
proof -
  have 1: "fst (fetch_pdf demo_env ''corrupt'' []) =
     Inl (Raised ''Exception'' ''Failed to extract text from PDF: EOF marker not found'')"
    by (simp add: fetch_pdf_def read_pdf_text_def demo_env_def demo_get_def demo_body_def)
  have 2: "process_urls demo_env [''corrupt'', ''a''] [] [] =
     ([PStr ''findings from notes on alpha''],
      [HttpGet ''corrupt'',
       Print ''Error processing document corrupt: Failed to extract text from PDF: EOF marker not found'',
       HttpGet ''a'', DocumentChain ''alpha'', AnalysisChain (PStr ''notes on alpha'')])"
    by code_simp
  show ?thesis
    using 1 2 failed_url_is_skipped [of demo_env "''corrupt''" "[]" _ "[''a'']" "[]", OF disjI1, OF 1]
    by simp
qed

text \<open>
  Claim C5, as amended. Given a response, \<open>fetch_pdf\<close> raises its fetch error exactly when
  the status is not 200; with status 200 it goes on to read and extract, and what it
  raises then is not the fetch error.
\<close>

theorem fetch_error_iff_not_200:
  assumes "session_get env tr url = Inr response"
  shows "(fst (fetch_pdf env url tr) =
            Inl (Raised ''Exception'' (''Failed to fetch PDF from '' @ url))) =
         (status response \<noteq> 200)"
  using assms by (simp add: fetch_pdf_def split: sum.splits)

theorem fetch_error_iff_not_200_witness:
  "session_get demo_env [] ''missing'' = Inr \<lparr>status = 404, read = Inr [0]\<rparr> \<and>
   fst (fetch_pdf demo_env ''missing'' []) =
     Inl (Raised ''Exception'' ''Failed to fetch PDF from missing'') \<and>
   session_get demo_env [] ''a'' = Inr \<lparr>status = 200, read = Inr [1]\<rparr> \<and>
   fst (fetch_pdf demo_env ''a'' []) \<noteq> Inl (Raised ''Exception'' ''Failed to fetch PDF from a'')"
proof -
  have 1: "session_get demo_env [] ''missing'' = Inr \<lparr>status = 404, read = Inr [0]\<rparr>"
    by (simp add: demo_env_def demo_get_def demo_body_def)
  have 2: "session_get demo_env [] ''a'' = Inr \<lparr>status = 200, read = Inr [1]\<rparr>"
    by (simp add: demo_env_def demo_get_def demo_body_def)
  show ?thesis
    using 1 2 fetch_error_iff_not_200 [OF 1] fetch_error_iff_not_200 [OF 2] by simp
qed

text \<open>
  The claim as stated speaks of every status from 200 to 299. On a response with status
  204 the fetch error is raised.
\<close>

theorem fetch_error_on_204:
  "session_get demo_env [] ''nocontent'' = Inr \<lparr>status = 204, read = Inr [0]\<rparr> \<and>
   (200::int) \<le> 204 \<and> (204::int) < 300 \<and>
   fetch_pdf demo_env ''nocontent'' [] =
     (Inl (Raised ''Exception'' ''Failed to fetch PDF from nocontent''), [HttpGet ''nocontent''])"
  by (simp add: fetch_pdf_def demo_env_def demo_get_def demo_body_def)

text \<open>
  Claim C6. In a batch whose URLs have the outcomes \<open>doc\<close>, one of them a success, one round
  of the outer loop enters \<open>find_connections\<close> once, after the inner loop, with the
  successful analyses in input order, and calls the agent once, with the instruction
  followed by their texts joined by a blank line.
\<close>

theorem batch_connections_once:
  assumes "\<forall>url\<in>set batch. \<forall>h. fst (fetch_and_analyze env url h) = doc url"
    and "\<exists>url\<in>set batch. \<not> isl (doc url)"
  shows "snd (process_one_batch env batch findings tr) =
           snd (process_urls env batch [] tr) @
             [FindConnections (successes (map doc batch)),
              AgentRun
                (''Analyze these documents and identify connections, patterns, and relationships between them: ''
                  @ str_join [CHR 0x0A, CHR 0x0A]
                      (map (py_str (repr_str env)) (successes (map doc batch))))] \<and>
         calls is_find_connections (snd (process_one_batch env batch findings tr)) =
           calls is_find_connections tr + 1 \<and>
         calls is_agent_run (snd (process_one_batch env batch findings tr)) =
           calls is_agent_run tr + 1"
proof -
  have rs: "fst (process_urls env batch [] tr) = successes (map doc batch)"
    using process_urls_results [OF assms(1), of "[]" tr] by simp
  have "successes (map doc batch) \<noteq> []"
    using assms(2)
  proof (induction batch)
    case Nil
    then show ?case by simp
  next
    case (Cons u us)
    then show ?case by (cases "doc u") auto
  qed
  note one = process_one_batch_nonempty [OF rs this, of findings]
  have t: "filter synthesis (snd (process_urls env batch [] tr)) = filter synthesis tr"
    by (rule synthesis_process_urls)
  show ?thesis
    using calls_via [OF synthesis_cases(1) t] calls_via [OF synthesis_cases(2) t]
    by (simp add: one connections_prompt_def blank_line_def calls_append)
       (simp add: calls_def)
qed

theorem batch_connections_once_witness:
  "fst (fetch_and_analyze demo_env ''a'' []) = Inr (PStr ''findings from notes on alpha'') \<and>
   fst (fetch_and_analyze demo_env ''b'' []) = Inr (PStr ''findings from notes on beta'') \<and>
   snd (process_one_batch demo_env [''a'', ''missing'', ''b''] [] []) =
     snd (process_urls demo_env [''a'', ''missing'', ''b''] [] []) @
       [FindConnections
          [PStr ''findings from notes on alpha'', PStr ''findings from notes on beta''],
        AgentRun
          (''Analyze these documents and identify connections, patterns, and relationships between them: ''
            @ ''findings from notes on alpha\<newline>\<newline>findings from notes on beta'')] \<and>
   calls is_find_connections (snd (process_one_batch demo_env [''a'', ''missing'', ''b''] [] [])) = 1"
proof -
  define doc where "doc = (\<lambda>u. fst (fetch_and_analyze demo_env u []))"
  have docs: "\<forall>url\<in>set [''a'', ''missing'', ''b''].
      \<forall>h. fst (fetch_and_analyze demo_env url h) = doc url"
    by (simp add: doc_def fetch_and_analyze_def fetch_pdf_def read_pdf_text_def
        analyze_document_def demo_env_def demo_get_def demo_body_def)
  have a: "doc ''a'' = Inr (PStr ''findings from notes on alpha'')"
    by (simp add: doc_def fetch_and_analyze_def fetch_pdf_def read_pdf_text_def
        analyze_document_def demo_env_def demo_get_def demo_body_def)
  have m: "doc ''missing'' = Inl (Raised ''Exception'' ''Failed to fetch PDF from missing'')"
    by (simp add: doc_def fetch_and_analyze_def fetch_pdf_def read_pdf_text_def
        analyze_document_def demo_env_def demo_get_def demo_body_def)
  have b: "doc ''b'' = Inr (PStr ''findings from notes on beta'')"
    by (simp add: doc_def fetch_and_analyze_def fetch_pdf_def read_pdf_text_def
        analyze_document_def demo_env_def demo_get_def demo_body_def)
  have some: "\<exists>url\<in>set [''a'', ''missing'', ''b'']. \<not> isl (doc url)"
    by (simp add: a)
  have s: "successes (map doc [''a'', ''missing'', ''b'']) =
      [PStr ''findings from notes on alpha'', PStr ''findings from notes on beta'']"
    by (simp add: a m b)
  note inst = batch_connections_once [OF docs some, of "[]" "[]", unfolded s]
  have t: "snd (process_one_batch demo_env [''a'', ''missing'', ''b''] [] []) =
     snd (process_urls demo_env [''a'', ''missing'', ''b''] [] []) @
       [FindConnections
          [PStr ''findings from notes on alpha'', PStr ''findings from notes on beta''],
        AgentRun
          (''Analyze these documents and identify connections, patterns, and relationships between them: ''
            @ ''findings from notes on alpha\<newline>\<newline>findings from notes on beta'')]"
    using inst [THEN conjunct1] by (simp del: process_urls.simps)
  have c: "calls is_find_connections
      (snd (process_one_batch demo_env [''a'', ''missing'', ''b''] [] [])) = 1"
    using inst [THEN conjunct2, THEN conjunct1] by (simp add: calls_def)
  show ?thesis
    using a [unfolded doc_def] b [unfolded doc_def] t c by blast
qed

text \<open>
  Claim C7. Let the response have status 200 and its body be read. When \<open>PdfReader\<close> raises
  \<open>e\<close> on the body, or when it gives the pages and \<open>extract_text\<close> raises \<open>e\<close> on a page
  after giving a text for each page before it, \<open>fetch_pdf\<close> raises an \<open>Exception\<close> whose
  message is \<open>Failed to extract text from PDF: \<close> followed by \<open>str(e)\<close>, and the text of
  the pages before is dropped.
\<close>

theorem extraction_error_keeps_detail:
  assumes "session_get env tr url = Inr response"
    and "status response = 200"
    and "read response = Inr pdf_content"
    and "PdfReader env pdf_content = Inl e \<or>
         (\<exists>before page after texts.
            PdfReader env pdf_content = Inr (before @ page # after) \<and>
            map (extract_text env) before = map Inr texts \<and>
            extract_text env page = Inl e)"
  shows "fetch_pdf env url tr =
           (Inl (Raised ''Exception'' (''Failed to extract text from PDF: '' @ lib_str e)),
            tr @ [HttpGet url])"
proof -
  have "read_pdf_text env pdf_content = Inl e"
    using assms(4)
  proof
    assume "PdfReader env pdf_content = Inl e"
    then show ?thesis by (simp add: read_pdf_text_def)
  next
    assume "\<exists>before page after texts.
            PdfReader env pdf_content = Inr (before @ page # after) \<and>
            map (extract_text env) before = map Inr texts \<and>
            extract_text env page = Inl e"
    then obtain before page after texts
      where "PdfReader env pdf_content = Inr (before @ page # after)"
        and "map (extract_text env) before = map Inr texts"
        and "extract_text env page = Inl e"
      by blast
    then show ?thesis
      by (simp add: read_pdf_text_def extract_pages_raises)
  qed
  with assms(1-3) show ?thesis
    by (simp add: fetch_pdf_def)
qed

theorem extraction_error_keeps_detail_witness:
  "session_get demo_env [] ''corrupt'' = Inr \<lparr>status = 200, read = Inr []\<rparr> \<and>
   PdfReader demo_env [] = Inl (LibError ''PdfReadError'' ''EOF marker not found'') \<and>
   fetch_pdf demo_env ''corrupt'' [] =
     (Inl (Raised ''Exception'' ''Failed to extract text from PDF: EOF marker not found''),
      [HttpGet ''corrupt'']) \<and>
   session_get bad_page_env [] ''ab'' = Inr \<lparr>status = 200, read = Inr [1, 2]\<rparr> \<and>
   PdfReader bad_page_env [1, 2] = Inr [[1], [2]] \<and>
   extract_text bad_page_env [1] = Inr ''alpha'' \<and>
   extract_text bad_page_env [2] = Inl (LibError ''PdfReadError'' ''Unexpected end of stream'') \<and>
   fetch_pdf bad_page_env ''ab'' [] =
     (Inl (Raised ''Exception'' ''Failed to extract text from PDF: Unexpected end of stream''),
      [HttpGet ''ab''])"
proof -
  have 1: "session_get demo_env [] ''corrupt'' = Inr \<lparr>status = 200, read = Inr []\<rparr>"
    by (simp add: demo_env_def demo_get_def demo_body_def)
  have 2: "PdfReader demo_env [] = Inl (LibError ''PdfReadError'' ''EOF marker not found'')"
    by (simp add: demo_env_def)
  have 3: "session_get bad_page_env [] ''ab'' = Inr \<lparr>status = 200, read = Inr [1, 2]\<rparr>"
    by (simp add: bad_page_env_def demo_env_def demo_get_def demo_body_def)
  have 4: "PdfReader bad_page_env [1, 2] = Inr ([[1]] @ [2] # [])"
    by (simp add: bad_page_env_def demo_env_def)
  have 5: "map (extract_text bad_page_env) [[1]] = map Inr [''alpha'']"
    by (simp add: bad_page_env_def)
  have 6: "extract_text bad_page_env [2] =
      Inl (LibError ''PdfReadError'' ''Unexpected end of stream'')"
    by (simp add: bad_page_env_def)
  have first: "fetch_pdf demo_env ''corrupt'' [] =
     (Inl (Raised ''Exception'' ''Failed to extract text from PDF: EOF marker not found''),
      [HttpGet ''corrupt''])"
    using extraction_error_keeps_detail [OF 1 _ _ disjI1, OF _ _ 2] by simp
  have "\<exists>before page after texts.
      PdfReader bad_page_env [1, 2] = Inr (before @ page # after) \<and>
      map (extract_text bad_page_env) before = map Inr texts \<and>
      extract_text bad_page_env page =
        Inl (LibError ''PdfReadError'' ''Unexpected end of stream'')"
    using 4 5 6 by blast
  then have second: "fetch_pdf bad_page_env ''ab'' [] =
     (Inl (Raised ''Exception'' ''Failed to extract text from PDF: Unexpected end of stream''),
      [HttpGet ''ab''])"
    using extraction_error_keeps_detail [OF 3 _ _ disjI2, of "[1, 2]"] by simp
  show ?thesis
    using 1 2 3 4 5 6 first second by simp
qed

text \<open>
  Claim C8. When the PDF is parsed into \<open>pages\<close> and the pages give \<open>texts\<close>, one each and
  in order, \<open>fetch_pdf\<close> returns the concatenation of \<open>texts\<close> with nothing in between; a
  PDF without pages gives the empty string.
\<close>

theorem extract_concatenates_pages:
  assumes "session_get env tr url = Inr response"
    and "status response = 200"
    and "read response = Inr pdf_content"
    and "PdfReader env pdf_content = Inr pages"
    and "map (extract_text env) pages = map Inr texts"
  shows "fetch_pdf env url tr = (Inr (concat texts), tr @ [HttpGet url]) \<and>
         (pages = [] \<longrightarrow> fst (fetch_pdf env url tr) = Inr [])"
  using assms extract_pages_texts [OF assms(5), of "[]"]
  by (auto simp: fetch_pdf_def read_pdf_text_def)

theorem extract_concatenates_pages_witness:
  "session_get demo_env [] ''ab'' = Inr \<lparr>status = 200, read = Inr [1, 2]\<rparr> \<and>
   PdfReader demo_env [1, 2] = Inr [[1], [2]] \<and>
   map (extract_text demo_env) [[1], [2]] = map Inr [''alpha'', ''beta''] \<and>
   fetch_pdf demo_env ''ab'' [] = (Inr ''alphabeta'', [HttpGet ''ab'']) \<and>
   session_get demo_env [] ''blank'' = Inr \<lparr>status = 200, read = Inr [0]\<rparr> \<and>
   PdfReader demo_env [0] = Inr [] \<and>
   fetch_pdf demo_env ''blank'' [] = (Inr [], [HttpGet ''blank''])"
proof -
  have 1: "session_get demo_env [] ''ab'' = Inr \<lparr>status = 200, read = Inr [1, 2]\<rparr>"
    by (simp add: demo_env_def demo_get_def demo_body_def)
  have 2: "PdfReader demo_env [1, 2] = Inr [[1], [2]]"
    by (simp add: demo_env_def)
  have 3: "map (extract_text demo_env) [[1], [2]] = map Inr [''alpha'', ''beta'']"
    by (simp add: demo_env_def)
  have 4: "session_get demo_env [] ''blank'' = Inr \<lparr>status = 200, read = Inr [0]\<rparr>"
    by (simp add: demo_env_def demo_get_def demo_body_def)
  have 5: "PdfReader demo_env [0] = Inr []"
    by (simp add: demo_env_def)
  have 6: "map (extract_text demo_env) [] = map Inr []"
    by simp
  show ?thesis
    using 1 2 3 4 5 extract_concatenates_pages [OF 1 _ _ 2 3]
      extract_concatenates_pages [OF 4 _ _ 5 6]
    by simp
qed

text \<open>
  Claim C9. Construction raises the \<open>ValueError\<close> of the missing key exactly when
  \<open>OPENROUTER_API_KEY\<close> is absent from the environment or is the empty string; with a key
  that is not empty, whatever construction raises is not this error.
\<close>

theorem init_key:
  "(InvestigativeAgent_init env =
      Inl (Raised ''ValueError'' ''OPENROUTER_API_KEY environment variable not set'')) =
   (getenv env ''OPENROUTER_API_KEY'' = None \<or> getenv env ''OPENROUTER_API_KEY'' = Some [])"
  by (simp add: InvestigativeAgent_init_def split: option.splits)

theorem init_key_witness:
  "InvestigativeAgent_init no_key_env =
     Inl (Raised ''ValueError'' ''OPENROUTER_API_KEY environment variable not set'') \<and>
   getenv no_key_env ''OPENROUTER_API_KEY'' = None \<and>
   InvestigativeAgent_init empty_key_env =
     Inl (Raised ''ValueError'' ''OPENROUTER_API_KEY environment variable not set'') \<and>
   getenv empty_key_env ''OPENROUTER_API_KEY'' = Some [] \<and>
   InvestigativeAgent_init demo_env = Inr \<lparr>api_key = ''sk-1''\<rparr> \<and>
   getenv demo_env ''OPENROUTER_API_KEY'' = Some ''sk-1''"
  using init_key [of no_key_env] init_key [of empty_key_env] init_key [of demo_env]
  by (simp add: InvestigativeAgent_init_def no_key_env_def empty_key_env_def demo_env_def)

text \<open>
  Claim C10. On the empty list \<open>process_batch\<close> returns the error marker and leaves the
  trace as it was: it makes no call at all.
\<close>

theorem process_batch_empty:
  "process_batch env [] tr = (Inr error_marker, tr)"
  by (simp add: process_batch_def batch_loop.simps)

theorem process_batch_empty_witness:
  "process_batch demo_env [] [] =
     (Inr (PDict [(''error'', PStr ''No documents were successfully processed'')]), [])"
  using process_batch_empty [of demo_env "[]"] by (simp add: error_marker_def)

end
